theory Spec2Isabelle
  imports Complex_Main
begin

section \<open>Samsung TV media player: state synchronisation and command dispatch\<close>

text \<open>
  A shallow embedding of \<^verbatim>\<open>homeassistant/components/samsungtv/media_player.py\<close>.
  The entity \<^verbatim>\<open>SamsungTVDevice\<close> is a record of the attributes its methods read and
  write. Every method becomes a function from the entity to a triple: the exception that
  left the method (\<open>None\<close> for a normal return), the entity afterwards, and the effects
  the method performed on its collaborators, in program order. Each effect is paired with
  the entity as it was when the effect was issued: an awaited call is a suspension point,
  and that entity is what any other task scheduled there observes.

  What the collaborators answer (the bridge, the UPnP client library, the clock, the
  host process) is not decided by this file: it is a parameter of the method.
\<close>

subsection \<open>Time\<close>

text \<open>A \<^verbatim>\<open>datetime\<close> as microseconds since the epoch; a \<^verbatim>\<open>timedelta\<close> as microseconds.\<close>

type_synonym time = int
type_synonym timedelta = int

definition timedelta_seconds :: "int \<Rightarrow> timedelta" where
  "timedelta_seconds n = n * 1000000"

text \<open>
  \<^verbatim>\<open>SCAN_INTERVAL_PLUS_OFF_TIME = entity_component.DEFAULT_SCAN_INTERVAL + timedelta(seconds=5)\<close>.
  \<^verbatim>\<open>DEFAULT_SCAN_INTERVAL\<close> is declared outside this module and is taken as a parameter.
\<close>

definition SCAN_INTERVAL_PLUS_OFF_TIME :: "timedelta \<Rightarrow> timedelta" where
  "SCAN_INTERVAL_PLUS_OFF_TIME DEFAULT_SCAN_INTERVAL =
     DEFAULT_SCAN_INTERVAL + timedelta_seconds 5"

definition APP_LIST_DELAY :: nat where
  "APP_LIST_DELAY = 3"

subsection \<open>Constants\<close>

definition SOURCES :: "(string \<times> string) list" where
  "SOURCES = [(''TV'', ''KEY_TV''), (''HDMI'', ''KEY_HDMI'')]"

definition MEDIA_TYPE_APP :: string where
  "MEDIA_TYPE_APP = ''app''"

definition MEDIA_TYPE_CHANNEL :: string where
  "MEDIA_TYPE_CHANNEL = ''channel''"

datatype state = STATE_ON | STATE_OFF

subsection \<open>Exceptions\<close>

text \<open>
  The exceptions the module names, with the two bases they derive from in
  \<^verbatim>\<open>async_upnp_client.exceptions\<close>: \<^verbatim>\<open>UpnpActionResponseError\<close> is a
  \<^verbatim>\<open>UpnpResponseError\<close>; that and \<^verbatim>\<open>UpnpConnectionError\<close> are
  \<^verbatim>\<open>UpnpCommunicationError\<close>s, which are \<^verbatim>\<open>UpnpError\<close>s. \<open>OtherException\<close> stands
  for any exception outside that hierarchy. The \<open>is_\<close> functions are \<^verbatim>\<open>isinstance\<close>.
\<close>

datatype exc =
    AssertionError
  | UpnpError
  | UpnpCommunicationError
  | UpnpResponseError
  | UpnpActionResponseError
  | UpnpConnectionError
  | OtherException

fun is_UpnpActionResponseError :: "exc \<Rightarrow> bool" where
  "is_UpnpActionResponseError UpnpActionResponseError = True"
| "is_UpnpActionResponseError _ = False"

fun is_UpnpResponseError :: "exc \<Rightarrow> bool" where
  "is_UpnpResponseError UpnpResponseError = True"
| "is_UpnpResponseError UpnpActionResponseError = True"
| "is_UpnpResponseError _ = False"

fun is_UpnpConnectionError :: "exc \<Rightarrow> bool" where
  "is_UpnpConnectionError UpnpConnectionError = True"
| "is_UpnpConnectionError _ = False"

fun is_UpnpError :: "exc \<Rightarrow> bool" where
  "is_UpnpError AssertionError = False"
| "is_UpnpError OtherException = False"
| "is_UpnpError _ = True"

subsection \<open>The entity\<close>

text \<open>
  The \<^verbatim>\<open>DmrDevice\<close> handle, as far as the entity touches it: whether a handler is
  attached to \<^verbatim>\<open>on_event\<close>, and the two fields the entity reads.
\<close>

record dmr =
  on_event :: bool
  volume_level :: "real option"
  is_volume_muted :: "bool option"

definition DmrDevice :: dmr where
  "DmrDevice = \<lparr>on_event = False, volume_level = None, is_volume_muted = None\<rparr>"

text \<open>
  The attributes of \<^verbatim>\<open>SamsungTVDevice\<close>, without their leading underscore; those
  that no method below reads (name, unique id, device class, device info, supported
  features) are left out. The
  \<^verbatim>\<open>AiohttpNotifyServer\<close> is kept as the \<^verbatim>\<open>source\<close> pair it was built with, a
  \<^verbatim>\<open>Script\<close> as its name, and the bridge as the one thing asked of it:
  \<^verbatim>\<open>isinstance(self._bridge, SamsungTVWSBridge)\<close>.
\<close>

record device =
  host :: string
  mac :: "string option"
  ssdp_rendering_control_location :: "string option"
  on_script :: "string option"
  playing :: bool
  attr_state :: "state option"
  attr_is_volume_muted :: bool
  attr_volume_level :: "real option"
  attr_source_list :: "string list"
  app_list :: "(string \<times> string) list option"
  app_list_event :: bool
  end_of_power_off :: "time option"
  bridge_is_ws :: bool
  auth_failed :: bool
  dmr_device :: "dmr option"
  upnp_server :: "(string \<times> nat) option"

definition SamsungTVDevice ::
  "bool \<Rightarrow> string \<Rightarrow> string option \<Rightarrow> string option \<Rightarrow> string option \<Rightarrow> device" where
  "SamsungTVDevice ws h m loc script =
     \<lparr>host = h, mac = m, ssdp_rendering_control_location = loc, on_script = script,
      playing = True, attr_state = None, attr_is_volume_muted = False,
      attr_volume_level = None, attr_source_list = map fst SOURCES,
      app_list = None, app_list_event = False, end_of_power_off = None,
      bridge_is_ws = ws, auth_failed = False, dmr_device = None, upnp_server = None\<rparr>"

subsection \<open>Effects\<close>

datatype level = DEBUG | INFO | WARNING | ERROR

datatype event =
    BridgeIsOn
  | BridgeRequestAppList
  | BridgePowerOff
  | BridgeSendKeys "string list"
  | BridgeLaunchApp string
  | WaitForAppListEvent nat
  | UpnpCreateDevice string
  | GetLocalIp string
  | ServerStart
  | ServerStop
  | DmrSetOnEvent bool
  | DmrSubscribe
  | DmrUnsubscribe
  | DmrSetVolumeLevel real
  | ReauthFlowInit
  | WriteHaState
  | RunOnScript
  | SendMagicPacket string "string option"
  | Log level string

type_synonym trace = "(event \<times> device) list"

type_synonym outcome = "exc option \<times> device \<times> trace"

definition raised :: "outcome \<Rightarrow> exc option" where
  "raised r = fst r"

definition after :: "outcome \<Rightarrow> device" where
  "after r = fst (snd r)"

definition effects :: "outcome \<Rightarrow> event list" where
  "effects r = map fst (snd (snd r))"

text \<open>Python's truthiness of an optional string: neither \<^verbatim>\<open>None\<close> nor empty.\<close>

fun truthy :: "string option \<Rightarrow> bool" where
  "truthy None = False"
| "truthy (Some x) = (x \<noteq> [])"

subsection \<open>Callbacks\<close>

definition update_sources :: "device \<Rightarrow> device" where
  "update_sources s =
     s\<lparr>attr_source_list :=
         map fst SOURCES
         @ (case app_list s of
              None \<Rightarrow> []
            | Some al \<Rightarrow> if al \<noteq> [] then map fst al else [])\<rparr>"

definition app_list_callback :: "(string \<times> string) list \<Rightarrow> device \<Rightarrow> device" where
  "app_list_callback al s =
     (let s1 = s\<lparr>app_list := Some al\<rparr>;
          s2 = update_sources s1
      in s2\<lparr>app_list_event := True\<rparr>)"

definition access_denied :: "device \<Rightarrow> outcome" where
  "access_denied s =
     (let s1 = s\<lparr>auth_failed := True\<rparr>
      in (None, s1,
          [(Log DEBUG ''Access denied in getting remote object'', s), (ReauthFlowInit, s1)]))"

definition update_from_upnp :: "device \<Rightarrow> device" where
  "update_from_upnp s =
     (case dmr_device s of
        None \<Rightarrow> s
      | Some d \<Rightarrow>
          (let s1 = (case volume_level d of
                       None \<Rightarrow> s
                     | Some v \<Rightarrow> s\<lparr>attr_volume_level := Some v\<rparr>)
           in (case is_volume_muted d of
                 None \<Rightarrow> s1
               | Some m \<Rightarrow> s1\<lparr>attr_is_volume_muted := m\<rparr>)))"

definition on_upnp_event :: "device \<Rightarrow> outcome" where
  "on_upnp_event s = (let s1 = update_from_upnp s in (None, s1, [(WriteHaState, s1)]))"

subsection \<open>The debounce window\<close>

definition power_off_in_progress :: "time \<Rightarrow> device \<Rightarrow> bool" where
  "power_off_in_progress utcnow s =
     (case end_of_power_off s of None \<Rightarrow> False | Some t \<Rightarrow> t > utcnow)"

definition available :: "time \<Rightarrow> device \<Rightarrow> bool" where
  "available utcnow s =
     (if auth_failed s then False
      else (attr_state s = Some STATE_ON
            \<or> on_script s \<noteq> None
            \<or> mac s \<noteq> None
            \<or> power_off_in_progress utcnow s))"

subsection \<open>The polling tick\<close>

text \<open>
  What the collaborators answer during one call of \<^verbatim>\<open>async_update\<close>:
  \<^item> \<open>utcnow\<close>: the clock, read once, by \<^verbatim>\<open>_power_off_in_progress\<close>;
  \<^item> \<open>is_stopping\<close>: \<^verbatim>\<open>hass.is_stopping\<close>;
  \<^item> \<open>is_on\<close>: the value of \<^verbatim>\<open>bridge.async_is_on()\<close>;
  \<^item> \<open>app_list_response\<close>: whether the bridge delivers the application list through
    \<^verbatim>\<open>_app_list_callback\<close> while \<^verbatim>\<open>async_request_app_list\<close> is awaited, while the
    event is awaited, or not within \<^verbatim>\<open>APP_LIST_DELAY\<close> (a later delivery is a call of
    \<open>app_list_callback\<close> after the tick);
  \<^item> \<open>create_device\<close>: the exception of \<^verbatim>\<open>async_create_device\<close>, if it raises;
  \<^item> \<open>event_ip\<close>: the address found by \<^verbatim>\<open>async_get_local_ip\<close>;
  \<^item> \<open>subscribe\<close>: the exception of \<^verbatim>\<open>async_subscribe_services\<close>, if it raises;
  \<^item> \<open>schedule\<close>: the order in which the awaited calls of the two startup tasks
    complete, as the task the event loop resumes next each time both are suspended
    (\<open>True\<close> for the application-list task).
\<close>

datatype app_list_response =
    DuringRequest "(string \<times> string) list"
  | DuringWait "(string \<times> string) list"
  | NoResponse

record env =
  utcnow :: time
  is_stopping :: bool
  is_on :: bool
  app_list_response :: app_list_response
  create_device :: "exc option"
  event_ip :: "string option"
  subscribe :: "exc option"
  schedule :: "bool list"

definition async_startup_app_list :: "env \<Rightarrow> device \<Rightarrow> outcome" where
  "async_startup_app_list e s =
     (let s1 = (case app_list_response e of
                  DuringRequest al \<Rightarrow> app_list_callback al s
                | _ \<Rightarrow> s)
      in if app_list_event s1 then (None, s1, [(BridgeRequestAppList, s)])
         else (case app_list_response e of
                 DuringWait al \<Rightarrow>
                   (None, app_list_callback al s1,
                    [(BridgeRequestAppList, s), (WaitForAppListEvent APP_LIST_DELAY, s1)])
               | _ \<Rightarrow>
                   (let s2 = s1\<lparr>app_list_event := True\<rparr>
                    in (None, s2,
                        [(BridgeRequestAppList, s), (WaitForAppListEvent APP_LIST_DELAY, s1),
                         (Log DEBUG ''Failed to load app list from %s: %s'', s2)]))))"

text \<open>
  The \<^verbatim>\<open>try\<close> block of \<^verbatim>\<open>_async_startup_dmr\<close> and its two handlers, entered with the
  handle stored in \<^verbatim>\<open>_dmr_device\<close> and the receiver in \<^verbatim>\<open>_upnp_server\<close>. An exception
  that is no \<^verbatim>\<open>UpnpError\<close> meets no handler.
\<close>

definition subscribe_dmr :: "exc option \<Rightarrow> dmr \<Rightarrow> device \<Rightarrow> outcome" where
  "subscribe_dmr answer d s =
     (let s1 = s\<lparr>dmr_device := Some (d\<lparr>on_event := True\<rparr>)\<rparr>;
          tr = [(DmrSetOnEvent True, s1), (DmrSubscribe, s1)]
      in case answer of
           None \<Rightarrow> (None, s1, tr)
         | Some x \<Rightarrow>
             if is_UpnpResponseError x
             then (None, s1, tr @ [(Log DEBUG ''Device rejected subscription: %r'', s1)])
             else if is_UpnpError x
             then (let s2 = s1\<lparr>dmr_device := Some (d\<lparr>on_event := False\<rparr>)\<rparr>;
                       s3 = s2\<lparr>dmr_device := None\<rparr>;
                       s4 = s3\<lparr>upnp_server := None\<rparr>
                   in (Some x, s4,
                       tr @ [(DmrSetOnEvent False, s2), (ServerStop, s3),
                             (Log DEBUG ''Error while subscribing during device connect: %r'', s4)]))
             else (Some x, s1, tr))"

definition async_startup_dmr :: "env \<Rightarrow> device \<Rightarrow> outcome" where
  "async_startup_dmr e s =
     (case ssdp_rendering_control_location s of
        None \<Rightarrow> (Some AssertionError, s, [])
      | Some loc \<Rightarrow>
          if dmr_device s \<noteq> None then (None, s, [])
          else (case create_device e of
                  Some x \<Rightarrow>
                    if is_UpnpConnectionError x then (None, s, [(UpnpCreateDevice loc, s)])
                    else (Some x, s, [(UpnpCreateDevice loc, s)])
                | None \<Rightarrow>
                    (let source = (case event_ip e of
                                     None \<Rightarrow> ''0.0.0.0''
                                   | Some ip \<Rightarrow> if ip \<noteq> [] then ip else ''0.0.0.0'',
                                   0::nat);
                         s1 = s\<lparr>upnp_server := Some source\<rparr>;
                         s2 = s1\<lparr>dmr_device := Some DmrDevice\<rparr>;
                         r = subscribe_dmr (subscribe e) DmrDevice s2
                     in (fst r, fst (snd r),
                         [(UpnpCreateDevice loc, s), (GetLocalIp loc, s), (ServerStart, s1)]
                         @ snd (snd r)))))"

subsection \<open>The startup methods as tasks\<close>

text \<open>
  \<^verbatim>\<open>async_update\<close> runs the two startup methods as tasks under \<^verbatim>\<open>asyncio.gather\<close>:
  the code of one runs between two awaited calls of the other. A task is the list of the
  segments of its method. A segment is the code run from one resumption to the next
  awaited call, or to the end of the method; it gives the entity it leaves, its effects
  (the awaited call is the last one) and whether the method goes on after that call
  (\<open>Continue\<close>), has returned (\<open>Stop None\<close>) or has raised (\<open>Stop (Some x)\<close>).
\<close>

datatype control = Continue | Stop "exc option"

type_synonym segment = "device \<Rightarrow> device \<times> trace \<times> control"

text \<open>A task that runs alone: one segment after the other.\<close>

fun run_task :: "segment list \<Rightarrow> device \<Rightarrow> outcome" where
  "run_task [] s = (None, s, [])"
| "run_task (g # gs) s =
     (case g s of
        (s1, tr, Continue) \<Rightarrow>
          (let r = run_task gs s1 in (fst r, fst (snd r), tr @ snd (snd r)))
      | (s1, tr, Stop x) \<Rightarrow> (x, s1, tr))"

text \<open>
  \<^verbatim>\<open>_async_startup_app_list\<close>: up to the request; from the return of the request to the
  wait; from the end of the wait to the end.
\<close>

definition app_list_request :: segment where
  "app_list_request s = (s, [(BridgeRequestAppList, s)], Continue)"

definition app_list_requested :: "env \<Rightarrow> segment" where
  "app_list_requested e s =
     (let s1 = (case app_list_response e of
                  DuringRequest al \<Rightarrow> app_list_callback al s
                | _ \<Rightarrow> s)
      in if app_list_event s1 then (s1, [], Stop None)
         else (s1, [(WaitForAppListEvent APP_LIST_DELAY, s1)], Continue))"

definition app_list_waited :: "env \<Rightarrow> segment" where
  "app_list_waited e s =
     (case app_list_response e of
        DuringWait al \<Rightarrow> (app_list_callback al s, [], Stop None)
      | _ \<Rightarrow>
          (let s2 = s\<lparr>app_list_event := True\<rparr>
           in (s2, [(Log DEBUG ''Failed to load app list from %s: %s'', s2)], Stop None)))"

definition startup_app_list_task :: "env \<Rightarrow> segment list" where
  "startup_app_list_task e = [app_list_request, app_list_requested e, app_list_waited e]"

text \<open>
  \<^verbatim>\<open>_async_startup_dmr\<close>: up to \<^verbatim>\<open>async_create_device\<close>; then to
  \<^verbatim>\<open>async_get_local_ip\<close>; then to \<^verbatim>\<open>async_start_server\<close>; then to
  \<^verbatim>\<open>async_subscribe_services\<close>; then, through the handlers, to the end or to
  \<^verbatim>\<open>async_stop_server\<close>; then to the \<^verbatim>\<open>raise\<close>, of the exception of the subscription.
\<close>

definition dmr_start :: "string \<Rightarrow> segment" where
  "dmr_start loc s =
     (if dmr_device s \<noteq> None then (s, [], Stop None)
      else (s, [(UpnpCreateDevice loc, s)], Continue))"

definition dmr_device_created :: "env \<Rightarrow> string \<Rightarrow> segment" where
  "dmr_device_created e loc s =
     (case create_device e of
        Some x \<Rightarrow> (s, [], Stop (if is_UpnpConnectionError x then None else Some x))
      | None \<Rightarrow> (s, [(GetLocalIp loc, s)], Continue))"

definition dmr_local_ip_found :: "env \<Rightarrow> segment" where
  "dmr_local_ip_found e s =
     (let source = (case event_ip e of
                      None \<Rightarrow> ''0.0.0.0''
                    | Some ip \<Rightarrow> if ip \<noteq> [] then ip else ''0.0.0.0'',
                    0::nat);
          s1 = s\<lparr>upnp_server := Some source\<rparr>
      in (s1, [(ServerStart, s1)], Continue))"

definition dmr_server_started :: segment where
  "dmr_server_started s =
     (let s2 = s\<lparr>dmr_device := Some DmrDevice\<rparr>;
          s3 = s2\<lparr>dmr_device := Some (DmrDevice\<lparr>on_event := True\<rparr>)\<rparr>
      in (s3, [(DmrSetOnEvent True, s3), (DmrSubscribe, s3)], Continue))"

definition dmr_subscribed :: "env \<Rightarrow> segment" where
  "dmr_subscribed e s =
     (case subscribe e of
        None \<Rightarrow> (s, [], Stop None)
      | Some x \<Rightarrow>
          if is_UpnpResponseError x
          then (s, [(Log DEBUG ''Device rejected subscription: %r'', s)], Stop None)
          else if is_UpnpError x
          then (let s2 = s\<lparr>dmr_device := Some (DmrDevice\<lparr>on_event := False\<rparr>)\<rparr>;
                    s3 = s2\<lparr>dmr_device := None\<rparr>
                in (s3, [(DmrSetOnEvent False, s2), (ServerStop, s3)], Continue))
          else (s, [], Stop (Some x)))"

definition dmr_server_stopped :: "env \<Rightarrow> segment" where
  "dmr_server_stopped e s =
     (let s4 = s\<lparr>upnp_server := None\<rparr>
      in (s4, [(Log DEBUG ''Error while subscribing during device connect: %r'', s4)],
          Stop (subscribe e)))"

definition startup_dmr_task :: "env \<Rightarrow> device \<Rightarrow> segment list" where
  "startup_dmr_task e s =
     (case ssdp_rendering_control_location s of
        None \<Rightarrow> [\<lambda>s. (s, [], Stop (Some AssertionError))]
      | Some loc \<Rightarrow>
          [dmr_start loc, dmr_device_created e loc, dmr_local_ip_found e,
           dmr_server_started, dmr_subscribed e, dmr_server_stopped e])"

text \<open>
  Two tasks interleaved. While both have segments left, the head of the schedule says
  which is resumed (\<open>True\<close> for the first; the second once the schedule is used up). A
  task that returns leaves the other to run alone. \<^verbatim>\<open>asyncio.gather\<close> raises the first
  exception of a task at once and does not cancel the other task: what that task had
  left to do is not in the outcome.
\<close>

fun interleave ::
  "bool list \<Rightarrow> segment list \<Rightarrow> segment list \<Rightarrow> device \<Rightarrow> outcome" where
  "interleave bs [] hs s = run_task hs s"
| "interleave bs (g # gs) [] s = run_task (g # gs) s"
| "interleave bs (g # gs) (h # hs) s =
     (if (case bs of [] \<Rightarrow> False | b # _ \<Rightarrow> b)
      then (case g s of
              (s1, tr, Continue) \<Rightarrow>
                (let r = interleave (tl bs) gs (h # hs) s1
                 in (fst r, fst (snd r), tr @ snd (snd r)))
            | (s1, tr, Stop None) \<Rightarrow>
                (let r = interleave (tl bs) [] (h # hs) s1
                 in (fst r, fst (snd r), tr @ snd (snd r)))
            | (s1, tr, Stop (Some x)) \<Rightarrow> (Some x, s1, tr))
      else (case h s of
              (s1, tr, Continue) \<Rightarrow>
                (let r = interleave (tl bs) (g # gs) hs s1
                 in (fst r, fst (snd r), tr @ snd (snd r)))
            | (s1, tr, Stop None) \<Rightarrow>
                (let r = interleave (tl bs) (g # gs) [] s1
                 in (fst r, fst (snd r), tr @ snd (snd r)))
            | (s1, tr, Stop (Some x)) \<Rightarrow> (Some x, s1, tr)))"

text \<open>
  \<^verbatim>\<open>asyncio.gather\<close> starts its tasks in the order of its arguments: the first segment
  of the first task runs, then the first segment of the second, and from there on the
  schedule decides.
\<close>

definition gather ::
  "bool list \<Rightarrow> segment list \<Rightarrow> segment list \<Rightarrow> device \<Rightarrow> outcome" where
  "gather bs gs hs s = interleave (True # False # bs) gs hs s"

text \<open>
  Which startup tasks run is decided before any of them starts. When \<^verbatim>\<open>gather\<close> raises,
  \<^verbatim>\<open>async_update\<close> has no handler and the exception leaves it.
\<close>

definition async_update :: "env \<Rightarrow> device \<Rightarrow> outcome" where
  "async_update e s =
     (if auth_failed s \<or> is_stopping e then (None, s, [])
      else
        (let r1 = (if power_off_in_progress (utcnow e) s
                   then (s\<lparr>attr_state := Some STATE_OFF\<rparr>, [])
                   else (s\<lparr>attr_state := Some (if is_on e then STATE_ON else STATE_OFF)\<rparr>,
                         [(BridgeIsOn, s)]));
             s1 = fst r1
         in if attr_state s1 \<noteq> Some STATE_ON then (None, s1, snd r1)
            else
              (let app_list_task = (if \<not> app_list_event s1 then startup_app_list_task e
                                    else []);
                   dmr_task = (if dmr_device s1 = None
                                  \<and> truthy (ssdp_rendering_control_location s1)
                               then startup_dmr_task e s1
                               else []);
                   r2 = gather (schedule e) app_list_task dmr_task s1;
                   tr = snd r1 @ snd (snd r2)
               in case fst r2 of
                    Some x \<Rightarrow> (Some x, fst (snd r2), tr)
                  | None \<Rightarrow> (None, update_from_upnp (fst (snd r2)), tr))))"

definition async_shutdown_dmr :: "device \<Rightarrow> outcome" where
  "async_shutdown_dmr s =
     (let r1 = (case dmr_device s of
                  None \<Rightarrow> (s, [])
                | Some d \<Rightarrow>
                    (let s1 = s\<lparr>dmr_device := None\<rparr>
                     in (s1, [(DmrSetOnEvent False, s1), (DmrUnsubscribe, s1)])));
          s2 = fst r1
      in case upnp_server s2 of
           None \<Rightarrow> (None, s2, snd r1)
         | Some srv \<Rightarrow>
             (let s3 = s2\<lparr>upnp_server := None\<rparr>
              in (None, s3, snd r1 @ [(ServerStop, s3)])))"

definition async_will_remove_from_hass :: "device \<Rightarrow> outcome" where
  "async_will_remove_from_hass s = async_shutdown_dmr s"

subsection \<open>Commands\<close>

text \<open>
  Each command reads the clock at most once, through \<^verbatim>\<open>_power_off_in_progress\<close> or in
  \<^verbatim>\<open>async_turn_off\<close>: \<open>now\<close> is that reading. The calls of the bridge return nothing
  the entity uses.
\<close>

definition async_launch_app :: "time \<Rightarrow> string \<Rightarrow> device \<Rightarrow> outcome" where
  "async_launch_app now app_id s =
     (if power_off_in_progress now s
      then (None, s, [(Log INFO ''TV is powering off, not sending launch_app command'', s)])
      else if \<not> bridge_is_ws s then (Some AssertionError, s, [])
      else (None, s, [(BridgeLaunchApp app_id, s)]))"

definition async_send_keys :: "time \<Rightarrow> string list \<Rightarrow> device \<Rightarrow> outcome" where
  "async_send_keys now keys s =
     (case keys of
        [] \<Rightarrow> (Some AssertionError, s, [])
      | k # ks \<Rightarrow>
          if power_off_in_progress now s \<and> k \<noteq> ''KEY_POWEROFF''
          then (None, s, [(Log INFO ''TV is powering off, not sending keys: %s'', s)])
          else (None, s, [(BridgeSendKeys keys, s)]))"

definition async_turn_off :: "timedelta \<Rightarrow> time \<Rightarrow> device \<Rightarrow> outcome" where
  "async_turn_off DEFAULT_SCAN_INTERVAL now s =
     (let s1 = s\<lparr>end_of_power_off :=
                   Some (now + SCAN_INTERVAL_PLUS_OFF_TIME DEFAULT_SCAN_INTERVAL)\<rparr>
      in (None, s1, [(BridgePowerOff, s1)]))"

text \<open>\<open>answer\<close> is the exception of \<^verbatim>\<open>dmr_device.async_set_volume_level\<close>, if it raises.\<close>

definition async_set_volume_level :: "exc option \<Rightarrow> real \<Rightarrow> device \<Rightarrow> outcome" where
  "async_set_volume_level answer volume s =
     (case dmr_device s of
        None \<Rightarrow> (None, s, [(Log INFO ''Upnp services are not available on %s'', s)])
      | Some d \<Rightarrow>
          (case answer of
             None \<Rightarrow> (None, s, [(DmrSetVolumeLevel volume, s)])
           | Some x \<Rightarrow>
               if is_UpnpActionResponseError x
               then (None, s, [(DmrSetVolumeLevel volume, s),
                               (Log WARNING ''Unable to set volume level on %s: %s'', s)])
               else (Some x, s, [(DmrSetVolumeLevel volume, s)])))"

definition async_volume_up :: "time \<Rightarrow> device \<Rightarrow> outcome" where
  "async_volume_up now s = async_send_keys now [''KEY_VOLUP''] s"

definition async_volume_down :: "time \<Rightarrow> device \<Rightarrow> outcome" where
  "async_volume_down now s = async_send_keys now [''KEY_VOLDOWN''] s"

definition async_mute_volume :: "bool \<Rightarrow> time \<Rightarrow> device \<Rightarrow> outcome" where
  "async_mute_volume mute now s = async_send_keys now [''KEY_MUTE''] s"

definition async_media_play :: "time \<Rightarrow> device \<Rightarrow> outcome" where
  "async_media_play now s = async_send_keys now [''KEY_PLAY''] (s\<lparr>playing := True\<rparr>)"

definition async_media_pause :: "time \<Rightarrow> device \<Rightarrow> outcome" where
  "async_media_pause now s = async_send_keys now [''KEY_PAUSE''] (s\<lparr>playing := False\<rparr>)"

definition async_media_play_pause :: "time \<Rightarrow> device \<Rightarrow> outcome" where
  "async_media_play_pause now s =
     (if playing s then async_media_pause now s else async_media_play now s)"

definition async_media_next_track :: "time \<Rightarrow> device \<Rightarrow> outcome" where
  "async_media_next_track now s = async_send_keys now [''KEY_CHUP''] s"

definition async_media_previous_track :: "time \<Rightarrow> device \<Rightarrow> outcome" where
  "async_media_previous_track now s = async_send_keys now [''KEY_CHDOWN''] s"

text \<open>
  \<open>positive_int\<close> says whether \<^verbatim>\<open>cv.positive_int\<close>, a validator declared outside this
  module, accepts the string; it is a parameter.
\<close>

definition async_play_media ::
  "(string \<Rightarrow> bool) \<Rightarrow> time \<Rightarrow> string \<Rightarrow> string \<Rightarrow> device \<Rightarrow> outcome" where
  "async_play_media positive_int now media_type media_id s =
     (if media_type = MEDIA_TYPE_APP then async_launch_app now media_id s
      else if media_type \<noteq> MEDIA_TYPE_CHANNEL
      then (None, s, [(Log ERROR ''Unsupported media type'', s)])
      else if \<not> positive_int media_id
      then (None, s, [(Log ERROR ''Media ID must be positive integer'', s)])
      else async_send_keys now
             (map (\<lambda>digit. ''KEY_'' @ [digit]) media_id @ [''KEY_ENTER'']) s)"

definition async_turn_on :: "device \<Rightarrow> outcome" where
  "async_turn_on s =
     (if on_script s \<noteq> None then (None, s, [(RunOnScript, s)])
      else (case mac s of
              None \<Rightarrow> (None, s, [])
            | Some m \<Rightarrow>
                if m \<noteq> []
                then (None, s, [(SendMagicPacket m (Some (host s)), s),
                                (SendMagicPacket m None, s)])
                else (None, s, [])))"

definition async_select_source :: "time \<Rightarrow> string \<Rightarrow> device \<Rightarrow> outcome" where
  "async_select_source now source s =
     (case (case app_list s of None \<Rightarrow> None | Some al \<Rightarrow> map_of al source) of
        Some app_id \<Rightarrow> async_launch_app now app_id s
      | None \<Rightarrow>
          (case map_of SOURCES source of
             Some k \<Rightarrow> async_send_keys now [k] s
           | None \<Rightarrow> (None, s, [(Log ERROR ''Unsupported source'', s)])))"

subsection \<open>The life of an entity\<close>

text \<open>
  Everything that can happen to an entity once constructed: a method called by the host,
  or a callback called by a collaborator. \<open>UpnpPush\<close> is the client library storing the
  values of an event in the handle and then calling the handler, if one is attached.
  \<open>ResumeStartupAppList\<close> is an application-list task that a tick left suspended when
  its \<^verbatim>\<open>gather\<close> raised, going on from its \<open>n\<close>-th suspension point.
\<close>

datatype call =
    Update env
  | ResumeStartupAppList env nat
  | AppListCallback "(string \<times> string) list"
  | AccessDenied
  | UpnpPush "real option" "bool option"
  | WillRemoveFromHass
  | TurnOff timedelta time
  | TurnOn
  | SetVolumeLevel "exc option" real
  | VolumeUp time
  | VolumeDown time
  | MuteVolume bool time
  | MediaPlayPause time
  | MediaPlay time
  | MediaPause time
  | MediaNextTrack time
  | MediaPreviousTrack time
  | PlayMedia time string string
  | SelectSource time string

definition upnp_push :: "real option \<Rightarrow> bool option \<Rightarrow> device \<Rightarrow> outcome" where
  "upnp_push v m s =
     (case dmr_device s of
        None \<Rightarrow> (None, s, [])
      | Some d \<Rightarrow>
          (let s1 = s\<lparr>dmr_device := Some (d\<lparr>volume_level := v, is_volume_muted := m\<rparr>)\<rparr>
           in if on_event d then on_upnp_event s1 else (None, s1, [])))"

fun perform :: "(string \<Rightarrow> bool) \<Rightarrow> call \<Rightarrow> device \<Rightarrow> outcome" where
  "perform valid (Update e) s = async_update e s"
| "perform valid (ResumeStartupAppList e n) s = run_task (drop n (startup_app_list_task e)) s"
| "perform valid (AppListCallback al) s = (None, app_list_callback al s, [])"
| "perform valid AccessDenied s = access_denied s"
| "perform valid (UpnpPush v m) s = upnp_push v m s"
| "perform valid WillRemoveFromHass s = async_will_remove_from_hass s"
| "perform valid (TurnOff d now) s = async_turn_off d now s"
| "perform valid TurnOn s = async_turn_on s"
| "perform valid (SetVolumeLevel answer v) s = async_set_volume_level answer v s"
| "perform valid (VolumeUp now) s = async_volume_up now s"
| "perform valid (VolumeDown now) s = async_volume_down now s"
| "perform valid (MuteVolume mute now) s = async_mute_volume mute now s"
| "perform valid (MediaPlayPause now) s = async_media_play_pause now s"
| "perform valid (MediaPlay now) s = async_media_play now s"
| "perform valid (MediaPause now) s = async_media_pause now s"
| "perform valid (MediaNextTrack now) s = async_media_next_track now s"
| "perform valid (MediaPreviousTrack now) s = async_media_previous_track now s"
| "perform valid (PlayMedia now media_type media_id) s =
     async_play_media valid now media_type media_id s"
| "perform valid (SelectSource now source) s = async_select_source now source s"

text \<open>
  A sequence of calls, one after the other. An exception leaves the call it was raised
  in; the entity keeps what that call had written and the next call goes on from there.
\<close>

fun run :: "(string \<Rightarrow> bool) \<Rightarrow> call list \<Rightarrow> device \<Rightarrow> device" where
  "run valid [] s = s"
| "run valid (c # cs) s = run valid cs (after (perform valid c s))"

subsection \<open>Example entity and answers\<close>

text \<open>
  A television set up with a hardware address and a rendering-control location, no
  turn-on script, on the bridge that can launch applications; and collaborators that
  answer a tick at second 1: the television is on, it ignores the application-list
  request, and the subscription succeeds. The request returns first and the wait
  begins; the calls of the rendering-control task then complete one after the other,
  well before the three seconds of the wait are over.
\<close>

definition tv :: device where
  "tv = SamsungTVDevice True ''192.168.1.2'' (Some ''aa:bb:cc:dd:ee:ff'')
          (Some ''http://192.168.1.2:9197/dmr'') None"

definition quiet :: env where
  "quiet = \<lparr>utcnow = 1000000, is_stopping = False, is_on = True,
            app_list_response = NoResponse, create_device = None,
            event_ip = Some ''192.168.1.10'', subscribe = None,
            schedule = [True, False, False, False, False, False]\<rparr>"

text \<open>The two effects of the application-list discovery: the request and the wait.\<close>

fun is_app_list_effect :: "event \<Rightarrow> bool" where
  "is_app_list_effect BridgeRequestAppList = True"
| "is_app_list_effect (WaitForAppListEvent d) = True"
| "is_app_list_effect _ = False"

text \<open>
  The startup of a tick that found the television on: the two tasks as \<^verbatim>\<open>async_update\<close>
  gathers them, from the entity with the state written.
\<close>

definition startup ::
  "env \<Rightarrow> device \<Rightarrow> outcome" where
  "startup e s =
     gather (schedule e)
       (if \<not> app_list_event s then startup_app_list_task e else [])
       (if dmr_device s = None \<and> truthy (ssdp_rendering_control_location s)
        then startup_dmr_task e (s\<lparr>attr_state := Some STATE_ON\<rparr>) else [])
       (s\<lparr>attr_state := Some STATE_ON\<rparr>)"

section \<open>Properties\<close>

subsection \<open>The tasks are the methods\<close>

text \<open>Each task, run alone, is its method.\<close>

lemma run_startup_app_list_task:
  "run_task (startup_app_list_task e) s = async_startup_app_list e s"
  by (simp add: startup_app_list_task_def app_list_request_def app_list_requested_def
      app_list_waited_def async_startup_app_list_def Let_def
      split: app_list_response.splits)

lemma run_startup_dmr_task:
  "run_task (startup_dmr_task e s) s = async_startup_dmr e s"
proof (cases "ssdp_rendering_control_location s")
  case None
  then show ?thesis by (simp add: startup_dmr_task_def async_startup_dmr_def)
next
  case (Some loc)
  show ?thesis
  proof (cases "dmr_device s")
    case d: (Some d)
    then show ?thesis
      using Some by (simp add: startup_dmr_task_def async_startup_dmr_def dmr_start_def)
  next
    case d: None
    show ?thesis
    proof (cases "create_device e")
      case c: (Some x)
      then show ?thesis
        using Some d
        by (simp add: startup_dmr_task_def async_startup_dmr_def dmr_start_def
            dmr_device_created_def)
    next
      case c: None
      show ?thesis
      proof (cases "subscribe e")
        case None
        then show ?thesis
          using Some d c
          by (simp add: startup_dmr_task_def async_startup_dmr_def dmr_start_def
              dmr_device_created_def dmr_local_ip_found_def dmr_server_started_def
              dmr_subscribed_def subscribe_dmr_def Let_def)
      next
        case x: (Some x)
        then show ?thesis
          using Some d c
          by (simp add: startup_dmr_task_def async_startup_dmr_def dmr_start_def
              dmr_device_created_def dmr_local_ip_found_def dmr_server_started_def
              dmr_subscribed_def dmr_server_stopped_def subscribe_dmr_def Let_def)
      qed
    qed
  qed
qed

subsection \<open>What each method leaves untouched\<close>

lemma app_list_callback_event [simp]: "app_list_event (app_list_callback al s)"
  by (simp add: app_list_callback_def update_sources_def)

lemma app_list_callback_app_list [simp]: "app_list (app_list_callback al s) = Some al"
  by (simp add: app_list_callback_def update_sources_def)

lemma update_from_upnp_fields [simp]:
  "app_list_event (update_from_upnp s) = app_list_event s"
  "end_of_power_off (update_from_upnp s) = end_of_power_off s"
  "dmr_device (update_from_upnp s) = dmr_device s"
  "upnp_server (update_from_upnp s) = upnp_server s"
  "attr_state (update_from_upnp s) = attr_state s"
  by (simp_all add: update_from_upnp_def split: option.splits)

lemma async_startup_app_list_fields [simp]:
  "app_list_event (fst (snd (async_startup_app_list e s)))"
  "end_of_power_off (fst (snd (async_startup_app_list e s))) = end_of_power_off s"
  "dmr_device (fst (snd (async_startup_app_list e s))) = dmr_device s"
  "upnp_server (fst (snd (async_startup_app_list e s))) = upnp_server s"
  "attr_state (fst (snd (async_startup_app_list e s))) = attr_state s"
  "ssdp_rendering_control_location (fst (snd (async_startup_app_list e s)))
     = ssdp_rendering_control_location s"
  by (simp_all add: async_startup_app_list_def app_list_callback_def update_sources_def Let_def
      split: app_list_response.splits)

lemma subscribe_dmr_fields [simp]:
  "app_list_event (fst (snd (subscribe_dmr a d s))) = app_list_event s"
  "end_of_power_off (fst (snd (subscribe_dmr a d s))) = end_of_power_off s"
  "attr_state (fst (snd (subscribe_dmr a d s))) = attr_state s"
  by (simp_all add: subscribe_dmr_def Let_def split: option.splits)

lemma async_startup_dmr_fields [simp]:
  "app_list_event (fst (snd (async_startup_dmr e s))) = app_list_event s"
  "end_of_power_off (fst (snd (async_startup_dmr e s))) = end_of_power_off s"
  "attr_state (fst (snd (async_startup_dmr e s))) = attr_state s"
  by (simp_all add: async_startup_dmr_def Let_def split: option.splits)

lemma subscribe_dmr_no_app_list_effect [simp]:
  "filter is_app_list_effect (map fst (snd (snd (subscribe_dmr a d s)))) = []"
  by (simp add: subscribe_dmr_def Let_def split: option.splits)

lemma async_startup_dmr_no_app_list_effect [simp]:
  "filter is_app_list_effect (map fst (snd (snd (async_startup_dmr e s)))) = []"
  by (simp add: async_startup_dmr_def Let_def split: option.splits)

lemma async_send_keys_entity [simp]: "fst (snd (async_send_keys now keys s)) = s"
  by (simp add: async_send_keys_def split: list.splits)

lemma async_launch_app_entity [simp]: "fst (snd (async_launch_app now a s)) = s"
  by (simp add: async_launch_app_def)

subsection \<open>What interleaved tasks leave untouched\<close>

text \<open>
  What every segment of two tasks keeps, their interleaving keeps, whatever the schedule.
\<close>

lemma run_task_preserves:
  assumes "\<And>g s. g \<in> set gs \<Longrightarrow> P s \<Longrightarrow> P (fst (g s))" and "P s"
  shows "P (fst (snd (run_task gs s)))"
  using assms
proof (induction gs arbitrary: s)
  case Nil
  then show ?case by simp
next
  case (Cons g gs)
  have g: "P (fst (g s))" using Cons.prems by simp
  have rest: "P (fst (snd (run_task gs (fst (g s)))))"
    using Cons.IH [of "fst (g s)"] Cons.prems(1) g by simp
  show ?case
    using g rest by (cases "g s") (auto simp add: Let_def split: control.splits)
qed

lemma interleave_preserves:
  assumes "\<And>g s. g \<in> set gs \<union> set hs \<Longrightarrow> P s \<Longrightarrow> P (fst (g s))" and "P s"
  shows "P (fst (snd (interleave bs gs hs s)))"
  using assms
proof (induction "length gs + length hs" arbitrary: bs gs hs s rule: less_induct)
  case less
  show ?case
  proof (cases gs)
    case Nil
    have "P (fst (snd (run_task hs s)))"
    proof (rule run_task_preserves [where P = P])
      show "\<And>k t. k \<in> set hs \<Longrightarrow> P t \<Longrightarrow> P (fst (k t))" using less.prems(1) by simp
      show "P s" by (rule less.prems(2))
    qed
    then show ?thesis using Nil by simp
  next
    case gs: (Cons g gs')
    show ?thesis
    proof (cases hs)
      case Nil
      have "P (fst (snd (run_task gs s)))"
      proof (rule run_task_preserves [where P = P])
        show "\<And>k t. k \<in> set gs \<Longrightarrow> P t \<Longrightarrow> P (fst (k t))" using less.prems(1) by simp
        show "P s" by (rule less.prems(2))
      qed
      then show ?thesis using gs Nil by simp
    next
      case hs: (Cons h hs')
      have step: "\<And>k t. k \<in> set (g # gs') \<union> set (h # hs') \<Longrightarrow> P t \<Longrightarrow> P (fst (k t))"
        using less.prems(1) gs hs by simp
      have g: "P (fst (g s))" and h: "P (fst (h s))"
        using step less.prems(2) by simp_all
      have a: "P (fst (snd (interleave bs' gs' (h # hs') (fst (g s)))))" for bs'
      proof (rule less.hyps)
        show "length gs' + length (h # hs') < length gs + length hs" using gs hs by simp
        show "\<And>k t. k \<in> set gs' \<union> set (h # hs') \<Longrightarrow> P t \<Longrightarrow> P (fst (k t))"
          using step by auto
        show "P (fst (g s))" by (rule g)
      qed
      have b: "P (fst (snd (interleave bs' [] (h # hs') (fst (g s)))))" for bs'
      proof (rule less.hyps)
        show "length ([]::segment list) + length (h # hs') < length gs + length hs"
          using gs hs by simp
        show "\<And>k t. k \<in> set [] \<union> set (h # hs') \<Longrightarrow> P t \<Longrightarrow> P (fst (k t))"
          using step by auto
        show "P (fst (g s))" by (rule g)
      qed
      have c: "P (fst (snd (interleave bs' (g # gs') hs' (fst (h s)))))" for bs'
      proof (rule less.hyps)
        show "length (g # gs') + length hs' < length gs + length hs" using gs hs by simp
        show "\<And>k t. k \<in> set (g # gs') \<union> set hs' \<Longrightarrow> P t \<Longrightarrow> P (fst (k t))"
          using step by auto
        show "P (fst (h s))" by (rule h)
      qed
      have d: "P (fst (snd (interleave bs' (g # gs') [] (fst (h s)))))" for bs'
      proof (rule less.hyps)
        show "length (g # gs') + length ([]::segment list) < length gs + length hs"
          using gs hs by simp
        show "\<And>k t. k \<in> set (g # gs') \<union> set [] \<Longrightarrow> P t \<Longrightarrow> P (fst (k t))"
          using step by auto
        show "P (fst (h s))" by (rule h)
      qed
      obtain s1 tr1 c1 where gs1: "g s = (s1, tr1, c1)" by (cases "g s")
      obtain s2 tr2 c2 where hs2: "h s = (s2, tr2, c2)" by (cases "h s")
      have "P (fst (snd (interleave bs (g # gs') (h # hs') s)))"
        using g h a [of "tl bs"] b [of "tl bs"] c [of "tl bs"] d [of "tl bs"] gs1 hs2
        by (simp add: Let_def split: control.splits option.splits list.splits del: interleave.simps(1,2))
      then show ?thesis using gs hs by simp
    qed
  qed
qed


text \<open>
  A second task that goes through all its segments and raises at the end raises in every
  interleaving with a first task that does not raise and keeps the invariant \<open>I\<close> of
  the second.
\<close>

lemma run_task_raises:
  fixes L :: "segment list"
  assumes second: "\<And>j t. j < length L \<Longrightarrow> I j t \<Longrightarrow>
                   (case snd (snd ((L ! j) t)) of
                      Continue \<Rightarrow> Suc j < length L \<and> I (Suc j) (fst ((L ! j) t))
                    | Stop None \<Rightarrow> False
                    | Stop (Some y) \<Rightarrow> y = x \<and> Q (fst ((L ! j) t)))"
    and "j < length L" and "I j s"
  shows "fst (run_task (drop j L) s) = Some x \<and> Q (fst (snd (run_task (drop j L) s)))"
  using assms(2,3)
proof (induction "length L - j" arbitrary: j s rule: less_induct)
  case less
  obtain s1 tr1 c1 where h: "(L ! j) s = (s1, tr1, c1)" by (cases "(L ! j) s")
  have d: "drop j L = L ! j # drop (Suc j) L"
    using less.prems(1) by (simp add: Cons_nth_drop_Suc)
  note sec = second [OF less.prems(1) less.prems(2)]
  show ?case
  proof (cases c1)
    case Continue
    have n: "Suc j < length L" and i: "I (Suc j) s1"
      using sec h Continue by simp_all
    have "fst (run_task (drop (Suc j) L) s1) = Some x
          \<and> Q (fst (snd (run_task (drop (Suc j) L) s1)))"
      using less.hyps [of "Suc j" s1] n i less.prems(1) by simp
    then show ?thesis using d h Continue by (simp add: Let_def)
  next
    case (Stop r)
    then show ?thesis
      using sec h d by (cases r) simp_all
  qed
qed

lemma interleave_second_raises:
  fixes L :: "segment list"
  assumes second: "\<And>j t. j < length L \<Longrightarrow> I j t \<Longrightarrow>
                   (case snd (snd ((L ! j) t)) of
                      Continue \<Rightarrow> Suc j < length L \<and> I (Suc j) (fst ((L ! j) t))
                    | Stop None \<Rightarrow> False
                    | Stop (Some y) \<Rightarrow> y = x \<and> Q (fst ((L ! j) t)))"
    and first: "\<And>k j t. k \<in> set gs \<Longrightarrow> I j t \<Longrightarrow>
                   I j (fst (k t)) \<and> (\<forall>y. snd (snd (k t)) \<noteq> Stop (Some y))"
    and "j < length L" and "I j s"
  shows "fst (interleave bs gs (drop j L) s) = Some x
         \<and> Q (fst (snd (interleave bs gs (drop j L) s)))"
  using assms(2,3,4)
proof (induction "length gs + (length L - j)" arbitrary: bs gs j s rule: less_induct)
  case less
  show ?case
  proof (cases gs)
    case Nil
    then show ?thesis
      using run_task_raises [of L I x Q j s, OF second less.prems(2) less.prems(3)] by simp
  next
    case gs: (Cons g gs')
    obtain s1 tr1 c1 where g: "g s = (s1, tr1, c1)" by (cases "g s")
    obtain s2 tr2 c2 where h: "(L ! j) s = (s2, tr2, c2)" by (cases "(L ! j) s")
    have d: "drop j L = L ! j # drop (Suc j) L"
      using less.prems(2) by (simp add: Cons_nth_drop_Suc)
    have fg: "I j s1" "\<And>y. c1 \<noteq> Stop (Some y)"
      using less.prems(1) [of g j s] less.prems(3) gs g by simp_all
    note sec = second [OF less.prems(2) less.prems(3)]
    have first': "\<And>k j t. k \<in> set gs' \<Longrightarrow> I j t \<Longrightarrow>
                   I j (fst (k t)) \<and> (\<forall>y. snd (snd (k t)) \<noteq> Stop (Some y))"
      using less.prems(1) gs by simp
    have a: "fst (interleave bs' gs' (drop j L) s1) = Some x
             \<and> Q (fst (snd (interleave bs' gs' (drop j L) s1)))" for bs'
      using less.hyps [of gs' j s1 bs'] first' fg(1) less.prems(2) gs by simp
    have b: "fst (interleave bs' [] (drop j L) s1) = Some x
             \<and> Q (fst (snd (interleave bs' [] (drop j L) s1)))" for bs'
      using less.hyps [of "[]" j s1 bs'] fg(1) less.prems(2) gs by simp
    have c: "c2 = Continue \<Longrightarrow>
             fst (interleave bs' gs (drop (Suc j) L) s2) = Some x
             \<and> Q (fst (snd (interleave bs' gs (drop (Suc j) L) s2)))" for bs'
    proof -
      assume c2: "c2 = Continue"
      have n: "Suc j < length L" and i: "I (Suc j) s2"
        using sec h c2 by simp_all
      show ?thesis
        using less.hyps [of gs "Suc j" s2 bs'] less.prems(1) n i less.prems(2) by simp
    qed
    have e: "c2 \<noteq> Stop None" "\<And>y. c2 = Stop (Some y) \<Longrightarrow> y = x \<and> Q s2"
      using sec h by auto
    show ?thesis
    proof (cases "case bs of [] \<Rightarrow> False | b # _ \<Rightarrow> b")
      case True
      show ?thesis
      proof (cases c1)
        case Continue
        then show ?thesis
          using True a [of "tl bs"] g gs d by (simp add: Let_def)
      next
        case (Stop r)
        then have r: "r = None" using fg(2) by (cases r) simp_all
        show ?thesis
          using True b [of "tl bs"] g gs d Stop r
          by (simp add: Let_def del: interleave.simps(1))
      qed
    next
      case False
      show ?thesis
      proof (cases c2)
        case Continue
        then show ?thesis
          using False c [of "tl bs"] h gs d by (simp add: Let_def)
      next
        case (Stop r)
        then obtain y where r: "r = Some y" using e(1) by (cases r) simp_all
        then show ?thesis
          using False e(2) [of y] Stop h gs d by (simp add: Let_def)
      qed
    qed
  qed
qed


lemma gather_Nil [simp]: "gather bs [] hs s = run_task hs s"
  by (simp add: gather_def)

lemma startup_app_list_task_frame:
  assumes "g \<in> set (startup_app_list_task e)"
  shows "end_of_power_off (fst (g s)) = end_of_power_off s"
    and "dmr_device (fst (g s)) = dmr_device s"
    and "upnp_server (fst (g s)) = upnp_server s"
    and "attr_state (fst (g s)) = attr_state s"
    and "app_list_event s \<Longrightarrow> app_list_event (fst (g s))"
    and "snd (snd (g s)) \<noteq> Stop (Some y)"
  using assms
  by (auto simp add: startup_app_list_task_def app_list_request_def app_list_requested_def
      app_list_waited_def app_list_callback_def update_sources_def Let_def
      split: app_list_response.splits if_splits)

lemma startup_dmr_task_frame:
  assumes "g \<in> set (startup_dmr_task e s0)"
  shows "end_of_power_off (fst (g s)) = end_of_power_off s"
    and "app_list_event (fst (g s)) = app_list_event s"
    and "attr_state (fst (g s)) = attr_state s"
  using assms
  by (auto simp add: startup_dmr_task_def dmr_start_def dmr_device_created_def
      dmr_local_ip_found_def dmr_server_started_def dmr_subscribed_def
      dmr_server_stopped_def Let_def split: option.splits if_splits)

lemma gather_startup_preserves:
  assumes "\<And>g t. g \<in> set (startup_app_list_task e) \<Longrightarrow> P t \<Longrightarrow> P (fst (g t))"
    and "\<And>g t. g \<in> set (startup_dmr_task e s0) \<Longrightarrow> P t \<Longrightarrow> P (fst (g t))"
    and "P s"
  shows "P (fst (snd (gather bs (if a then startup_app_list_task e else [])
                                 (if d then startup_dmr_task e s0 else []) s)))"
  unfolding gather_def
proof (rule interleave_preserves)
  show "P s" by (rule assms(3))
  show "\<And>g t. g \<in> set (if a then startup_app_list_task e else [])
                    \<union> set (if d then startup_dmr_task e s0 else []) \<Longrightarrow> P t \<Longrightarrow> P (fst (g t))"
    using assms(1,2) by (auto split: if_splits)
qed


subsection \<open>The tick\<close>

lemma async_update_unfold:
  "async_update e s =
     (if auth_failed s \<or> is_stopping e then (None, s, [])
      else if power_off_in_progress (utcnow e) s
      then (None, s\<lparr>attr_state := Some STATE_OFF\<rparr>, [])
      else if \<not> is_on e then (None, s\<lparr>attr_state := Some STATE_OFF\<rparr>, [(BridgeIsOn, s)])
      else (case fst (startup e s) of
              Some x \<Rightarrow> (Some x, fst (snd (startup e s)), (BridgeIsOn, s) # snd (snd (startup e s)))
            | None \<Rightarrow> (None, update_from_upnp (fst (snd (startup e s))),
                        (BridgeIsOn, s) # snd (snd (startup e s)))))"
  by (auto simp add: async_update_def startup_def Let_def split: option.splits)

lemma startup_end_of_power_off:
  "end_of_power_off (fst (snd (startup e s))) = end_of_power_off s"
  unfolding startup_def
  by (rule gather_startup_preserves
        [where P = "\<lambda>u. end_of_power_off u = end_of_power_off s"])
     (simp_all add: startup_app_list_task_frame startup_dmr_task_frame)

lemma async_update_end_of_power_off:
  "end_of_power_off (fst (snd (async_update e s))) = end_of_power_off s"
  by (simp add: async_update_unfold startup_end_of_power_off split: option.splits)


lemma startup_resolved:
  assumes "app_list_event s"
  shows "startup e s =
           (if dmr_device s = None \<and> truthy (ssdp_rendering_control_location s)
            then async_startup_dmr e (s\<lparr>attr_state := Some STATE_ON\<rparr>)
            else (None, s\<lparr>attr_state := Some STATE_ON\<rparr>, []))"
  using assms by (simp add: startup_def run_startup_dmr_task)

lemma async_update_app_list_event:
  "app_list_event s \<Longrightarrow> app_list_event (after (async_update e s))"
  by (simp add: async_update_unfold startup_resolved after_def split: option.splits)

lemma async_update_no_app_list_effect:
  "app_list_event s \<Longrightarrow> filter is_app_list_effect (effects (async_update e s)) = []"
  by (simp add: async_update_unfold startup_resolved effects_def split: option.splits)

lemma startup_subscribe_error:
  assumes "dmr_device s = None"
    and "ssdp_rendering_control_location s = Some loc" and "loc \<noteq> []"
    and "create_device e = None" and "subscribe e = Some x"
    and "is_UpnpError x" and "\<not> is_UpnpResponseError x"
  shows "fst (startup e s) = Some x"
    and "dmr_device (fst (snd (startup e s))) = None"
    and "upnp_server (fst (snd (startup e s))) = None"
    and "attr_state (fst (snd (startup e s))) = Some STATE_ON"
proof -
  define s1 where "s1 = s\<lparr>attr_state := Some STATE_ON\<rparr>"
  define L where "L = startup_dmr_task e s1"
  define gs where "gs = (if \<not> app_list_event s then startup_app_list_task e else [])"
  define I :: "nat \<Rightarrow> device \<Rightarrow> bool" where
    "I = (\<lambda>j t. attr_state t = Some STATE_ON \<and> (j = 0 \<or> j = 5 \<longrightarrow> dmr_device t = None))"
  define Q :: "device \<Rightarrow> bool" where
    "Q = (\<lambda>t. dmr_device t = None \<and> upnp_server t = None \<and> attr_state t = Some STATE_ON)"
  have L: "L = [dmr_start loc, dmr_device_created e loc, dmr_local_ip_found e,
                dmr_server_started, dmr_subscribed e, dmr_server_stopped e]"
    using assms(2) by (simp add: L_def s1_def startup_dmr_task_def)
  have second: "(case snd (snd ((L ! j) t)) of
                   Continue \<Rightarrow> Suc j < length L \<and> I (Suc j) (fst ((L ! j) t))
                 | Stop None \<Rightarrow> False
                 | Stop (Some y) \<Rightarrow> y = x \<and> Q (fst ((L ! j) t)))"
    if "j < length L" and "I j t" for j t
  proof -
    have "j = 0 \<or> j = 1 \<or> j = 2 \<or> j = 3 \<or> j = 4 \<or> j = 5"
      using that(1) L by auto
    then show ?thesis
      using that(2) assms(4-7)
      by (elim disjE)
         (simp_all add: L I_def Q_def dmr_start_def dmr_device_created_def
            dmr_local_ip_found_def dmr_server_started_def dmr_subscribed_def
            dmr_server_stopped_def Let_def)
  qed
  have first: "I j (fst (k t)) \<and> (\<forall>y. snd (snd (k t)) \<noteq> Stop (Some y))"
    if "k \<in> set gs" and "I j t" for k j t
  proof -
    have k: "k \<in> set (startup_app_list_task e)"
      using that(1) by (simp add: gs_def split: if_splits)
    show ?thesis
      using that(2) startup_app_list_task_frame [OF k]
      by (simp add: I_def)
  qed
  have "I 0 s1" using assms(1) by (simp add: I_def s1_def)
  moreover have "0 < length L" by (simp add: L)
  ultimately have
    "fst (interleave (True # False # schedule e) gs (drop 0 L) s1) = Some x
     \<and> Q (fst (snd (interleave (True # False # schedule e) gs (drop 0 L) s1)))"
    using interleave_second_raises [of L I x Q gs 0 s1 "True # False # schedule e"]
      second first by blast
  moreover have "startup e s = interleave (True # False # schedule e) gs (drop 0 L) s1"
    using assms(1-3) by (simp add: startup_def gather_def gs_def L_def s1_def)
  ultimately show "fst (startup e s) = Some x"
    and "dmr_device (fst (snd (startup e s))) = None"
    and "upnp_server (fst (snd (startup e s))) = None"
    and "attr_state (fst (snd (startup e s))) = Some STATE_ON"
    by (simp_all add: Q_def)
qed

text \<open>No method and no callback clears the event once it is set.\<close>

lemma perform_app_list_event:
  "app_list_event s \<Longrightarrow> app_list_event (after (perform valid c s))"
proof (cases c)
  case (Update e)
  assume "app_list_event s"
  then show ?thesis using Update by (simp add: async_update_app_list_event)
next
  case (ResumeStartupAppList e n)
  assume ev: "app_list_event s"
  have "app_list_event (fst (snd (run_task (drop n (startup_app_list_task e)) s)))"
  proof (rule run_task_preserves [where P = app_list_event])
    show "\<And>g t. g \<in> set (drop n (startup_app_list_task e)) \<Longrightarrow> app_list_event t
            \<Longrightarrow> app_list_event (fst (g t))"
      using startup_app_list_task_frame(5) by (blast dest: in_set_dropD)
    show "app_list_event s" by (rule ev)
  qed
  then show ?thesis using ResumeStartupAppList by (simp add: after_def)
next
  case (UpnpPush v m)
  assume "app_list_event s"
  then show ?thesis using UpnpPush
    by (simp add: upnp_push_def on_upnp_event_def after_def Let_def split: option.splits)
next
  case WillRemoveFromHass
  assume "app_list_event s"
  then show ?thesis using WillRemoveFromHass
    by (simp add: async_will_remove_from_hass_def async_shutdown_dmr_def after_def Let_def
        split: option.splits)
next
  case (SetVolumeLevel a v)
  assume "app_list_event s"
  then show ?thesis using SetVolumeLevel
    by (simp add: async_set_volume_level_def after_def split: option.splits)
next
  case (PlayMedia now mt mi)
  assume "app_list_event s"
  then show ?thesis using PlayMedia
    by (simp add: async_play_media_def after_def)
next
  case (SelectSource now src)
  assume "app_list_event s"
  then show ?thesis using SelectSource
    by (simp add: async_select_source_def after_def split: option.splits)
qed (simp_all add: access_denied_def async_turn_off_def async_turn_on_def
      async_volume_up_def async_volume_down_def async_mute_volume_def
      async_media_play_pause_def async_media_play_def async_media_pause_def
      async_media_next_track_def async_media_previous_track_def
      after_def Let_def split: option.splits)

lemma run_app_list_event: "app_list_event s \<Longrightarrow> app_list_event (run valid cs s)"
  by (induction cs arbitrary: s) (simp_all add: perform_app_list_event)

text \<open>
  The second handler of \<^verbatim>\<open>_async_startup_dmr\<close>: what the method returns when the
  subscription raises a \<^verbatim>\<open>UpnpError\<close> that is no \<^verbatim>\<open>UpnpResponseError\<close>.
\<close>

lemma startup_dmr_unwind:
  assumes "ssdp_rendering_control_location s = Some loc" "dmr_device s = None"
    "create_device e = None" "subscribe e = Some x" "is_UpnpError x"
    "\<not> is_UpnpResponseError x"
  shows "fst (async_startup_dmr e s) = Some x"
    and "fst (snd (async_startup_dmr e s)) = s\<lparr>dmr_device := None, upnp_server := None\<rparr>"
    and "map fst (snd (snd (async_startup_dmr e s))) =
       [UpnpCreateDevice loc, GetLocalIp loc, ServerStart, DmrSetOnEvent True, DmrSubscribe,
        DmrSetOnEvent False, ServerStop,
        Log DEBUG ''Error while subscribing during device connect: %r'']"
  using assms
  by (simp_all add: async_startup_dmr_def subscribe_dmr_def Let_def)

subsection \<open>Session references at suspension points\<close>

text \<open>
  The methods write the two session references of the entity, the handle and the
  receiver, one at a time, with awaited calls in between. While
  \<^verbatim>\<open>_async_startup_dmr\<close> awaits the start of the receiver, the entity references the
  receiver and no handle yet; while \<^verbatim>\<open>_async_shutdown_dmr\<close> awaits the unsubscription,
  the entity references the receiver and the handle no more.
\<close>

lemma async_startup_dmr_suspended_on_start:
  assumes "ssdp_rendering_control_location s = Some loc" and "dmr_device s = None"
    and "create_device e = None"
  shows "(ServerStart,
          s\<lparr>upnp_server :=
              Some (case event_ip e of
                      None \<Rightarrow> ''0.0.0.0''
                    | Some ip \<Rightarrow> if ip \<noteq> [] then ip else ''0.0.0.0'', 0)\<rparr>)
         \<in> set (snd (snd (async_startup_dmr e s)))"
    and "dmr_device (s\<lparr>upnp_server := x\<rparr>) = None"
  using assms by (simp_all add: async_startup_dmr_def Let_def)

lemma async_shutdown_dmr_suspended_on_unsubscribe:
  assumes "dmr_device s = Some d" and "upnp_server s = Some srv"
  shows "(DmrUnsubscribe, s\<lparr>dmr_device := None\<rparr>) \<in> set (snd (snd (async_shutdown_dmr s)))"
    and "upnp_server (s\<lparr>dmr_device := None\<rparr>) = Some srv"
  using assms by (simp_all add: async_shutdown_dmr_def Let_def)

subsection \<open>The debounce window in the tick\<close>

text \<open>
  C1, as stated: on every tick whose debounce deadline is set and in the future, the tick
  sets the reported state to OFF. It fails on a tick whose entity has the auth-failure
  flag set: \<^verbatim>\<open>async_update\<close> returns on its first line and the state stays ON.
\<close>

theorem async_update_debounce_counterexample:
  "power_off_in_progress (utcnow quiet)
     (tv\<lparr>auth_failed := True, attr_state := Some STATE_ON, end_of_power_off := Some 16000000\<rparr>)
   \<and> attr_state (after (async_update quiet
         (tv\<lparr>auth_failed := True, attr_state := Some STATE_ON,
             end_of_power_off := Some 16000000\<rparr>))) = Some STATE_ON
   \<and> attr_state (after (async_update quiet
         (tv\<lparr>auth_failed := True, attr_state := Some STATE_ON,
             end_of_power_off := Some 16000000\<rparr>))) \<noteq> Some STATE_OFF"
  by (simp add: async_update_def after_def power_off_in_progress_def quiet_def tv_def
      SamsungTVDevice_def)

text \<open>
  C1, amended: on every tick whose debounce deadline is set and in the future at tick
  time, if the auth-failure flag is unset and the host is not stopping, the tick sets the
  reported state to OFF and performs no effect at all, so it does not query the bridge,
  whatever \<open>answer\<close> the query would give; if the flag is set or the host is stopping,
  the tick changes nothing and does not query the bridge either.
\<close>

theorem async_update_debounce_reports_off:
  assumes "power_off_in_progress (utcnow e) s"
  shows "(\<not> auth_failed s \<and> \<not> is_stopping e \<longrightarrow>
            async_update (e\<lparr>is_on := answer\<rparr>) s = (None, s\<lparr>attr_state := Some STATE_OFF\<rparr>, []))
       \<and> (auth_failed s \<or> is_stopping e \<longrightarrow>
            async_update (e\<lparr>is_on := answer\<rparr>) s = (None, s, []))"
  using assms by (simp add: async_update_def)

theorem async_update_debounce_reports_off_witness:
  "power_off_in_progress (utcnow quiet) (tv\<lparr>end_of_power_off := Some 16000000\<rparr>)
   \<and> \<not> auth_failed (tv\<lparr>end_of_power_off := Some 16000000\<rparr>) \<and> \<not> is_stopping quiet
   \<and> async_update (quiet\<lparr>is_on := True\<rparr>) (tv\<lparr>end_of_power_off := Some 16000000\<rparr>)
       = (None, tv\<lparr>end_of_power_off := Some 16000000, attr_state := Some STATE_OFF\<rparr>, [])
   \<and> power_off_in_progress (utcnow quiet)
         (tv\<lparr>auth_failed := True, end_of_power_off := Some 16000000\<rparr>)
   \<and> auth_failed (tv\<lparr>auth_failed := True, end_of_power_off := Some 16000000\<rparr>)
   \<and> async_update (quiet\<lparr>is_on := True\<rparr>)
         (tv\<lparr>auth_failed := True, end_of_power_off := Some 16000000\<rparr>)
       = (None, tv\<lparr>auth_failed := True, end_of_power_off := Some 16000000\<rparr>, [])"
proof -
  have h: "power_off_in_progress (utcnow quiet) (tv\<lparr>end_of_power_off := Some 16000000\<rparr>)"
    by (simp add: power_off_in_progress_def quiet_def)
  have g: "\<not> auth_failed (tv\<lparr>end_of_power_off := Some 16000000\<rparr>) \<and> \<not> is_stopping quiet"
    by (simp add: tv_def SamsungTVDevice_def quiet_def)
  have h': "power_off_in_progress (utcnow quiet)
              (tv\<lparr>auth_failed := True, end_of_power_off := Some 16000000\<rparr>)"
    by (simp add: power_off_in_progress_def quiet_def)
  show ?thesis
    using h g h' async_update_debounce_reports_off [OF h, of True]
      async_update_debounce_reports_off [OF h', of True]
    by simp
qed

subsection \<open>Unwinding a failed subscription\<close>

text \<open>
  C2, as stated: when the subscribe step raises a UPnP error that is neither a
  \<^verbatim>\<open>UpnpResponseError\<close> nor a connection failure, the session unwinds atomically. It
  fails: the handler clears the handle, then awaits \<^verbatim>\<open>async_stop_server\<close>, and only
  then clears the receiver. The entity observed while that call is awaited has no handle
  and still references the receiver.
\<close>

theorem async_startup_dmr_unwinds_counterexample:
  "(ServerStop, tv\<lparr>upnp_server := Some (''192.168.1.10'', 0)\<rparr>)
     \<in> set (snd (snd (async_startup_dmr (quiet\<lparr>subscribe := Some UpnpError\<rparr>) tv)))
   \<and> dmr_device (tv\<lparr>upnp_server := Some (''192.168.1.10'', 0)\<rparr>) = None
   \<and> upnp_server (tv\<lparr>upnp_server := Some (''192.168.1.10'', 0)\<rparr>)
       = Some (''192.168.1.10'', 0)"
  by (simp add: async_startup_dmr_def subscribe_dmr_def quiet_def tv_def SamsungTVDevice_def
      Let_def)

text \<open>
  C2, amended: when \<^verbatim>\<open>_async_startup_dmr\<close> has built the handle and the receiver and the
  subscribe step raises a UPnP error that is neither a \<^verbatim>\<open>UpnpResponseError\<close> nor a
  connection failure, then by the time the error reaches the caller the session is fully
  unwound: the event handler is detached, the handle is cleared, the receiver is stopped
  and the receiver is cleared, in this order, and the same error is raised. The entity
  the method returns with is the one it started from, with no handle and no receiver.
\<close>

theorem async_startup_dmr_unwinds:
  assumes "ssdp_rendering_control_location s = Some loc" and "dmr_device s = None"
    and "create_device e = None" and "subscribe e = Some x"
    and "is_UpnpError x" and "\<not> is_UpnpResponseError x" and "\<not> is_UpnpConnectionError x"
  shows "raised (async_startup_dmr e s) = Some x
       \<and> after (async_startup_dmr e s) = s\<lparr>dmr_device := None, upnp_server := None\<rparr>
       \<and> dmr_device (after (async_startup_dmr e s)) = None
       \<and> upnp_server (after (async_startup_dmr e s)) = None
       \<and> effects (async_startup_dmr e s) =
           [UpnpCreateDevice loc, GetLocalIp loc, ServerStart, DmrSetOnEvent True, DmrSubscribe,
            DmrSetOnEvent False, ServerStop,
            Log DEBUG ''Error while subscribing during device connect: %r'']"
  using startup_dmr_unwind [OF assms(1-6)]
  by (simp add: raised_def after_def effects_def)

theorem async_startup_dmr_unwinds_witness:
  "is_UpnpError UpnpError \<and> \<not> is_UpnpResponseError UpnpError
   \<and> \<not> is_UpnpConnectionError UpnpError
   \<and> raised (async_startup_dmr (quiet\<lparr>subscribe := Some UpnpError\<rparr>) tv) = Some UpnpError
   \<and> after (async_startup_dmr (quiet\<lparr>subscribe := Some UpnpError\<rparr>) tv) = tv
   \<and> effects (async_startup_dmr (quiet\<lparr>subscribe := Some UpnpError\<rparr>) tv) =
       [UpnpCreateDevice ''http://192.168.1.2:9197/dmr'',
        GetLocalIp ''http://192.168.1.2:9197/dmr'', ServerStart, DmrSetOnEvent True,
        DmrSubscribe, DmrSetOnEvent False, ServerStop,
        Log DEBUG ''Error while subscribing during device connect: %r'']"
  using async_startup_dmr_unwinds
    [of tv "''http://192.168.1.2:9197/dmr''" "quiet\<lparr>subscribe := Some UpnpError\<rparr>" UpnpError]
  by (simp add: tv_def SamsungTVDevice_def quiet_def)

subsection \<open>An error of the subscription leaves the tick\<close>

text \<open>
  C3, as stated: no exception raised inside the tick escapes it; the error that
  \<^verbatim>\<open>_async_startup_dmr\<close> re-raises is caught by \<^verbatim>\<open>async_update\<close>. It fails:
  \<^verbatim>\<open>async_update\<close> awaits \<^verbatim>\<open>asyncio.gather\<close> outside any \<^verbatim>\<open>try\<close>, and the error
  leaves it.
\<close>

theorem async_update_raises_counterexample:
  "raised (async_update (quiet\<lparr>subscribe := Some UpnpError\<rparr>) tv) = Some UpnpError"
proof -
  have "fst (startup (quiet\<lparr>subscribe := Some UpnpError\<rparr>) tv) = Some UpnpError"
    by (rule startup_subscribe_error(1) [where loc = "''http://192.168.1.2:9197/dmr''"])
       (simp_all add: quiet_def tv_def SamsungTVDevice_def)
  then show ?thesis
    by (simp add: async_update_unfold raised_def power_off_in_progress_def quiet_def tv_def
        SamsungTVDevice_def)
qed

text \<open>
  C3, amended: the error re-raised by \<^verbatim>\<open>_async_startup_dmr\<close> is not caught by
  \<^verbatim>\<open>async_update\<close>. On a tick that finds the television on, has no handle yet and a
  rendering-control location, and whose subscribe step raises a \<^verbatim>\<open>UpnpError\<close> that is
  no \<^verbatim>\<open>UpnpResponseError\<close>, \<^verbatim>\<open>async_update\<close> raises that error to its caller, and
  leaves the entity with state ON, no handle and no receiver.
\<close>

theorem async_update_propagates_subscribe_error:
  assumes "\<not> auth_failed s" and "\<not> is_stopping e"
    and "\<not> power_off_in_progress (utcnow e) s" and "is_on e"
    and "dmr_device s = None"
    and "ssdp_rendering_control_location s = Some loc" and "loc \<noteq> []"
    and "create_device e = None" and "subscribe e = Some x"
    and "is_UpnpError x" and "\<not> is_UpnpResponseError x"
  shows "raised (async_update e s) = Some x
       \<and> dmr_device (after (async_update e s)) = None
       \<and> upnp_server (after (async_update e s)) = None
       \<and> attr_state (after (async_update e s)) = Some STATE_ON"
proof -
  note err = startup_subscribe_error
               [OF assms(5) assms(6) assms(7) assms(8) assms(9) assms(10) assms(11)]
  show ?thesis
    using assms(1-4) err
    by (simp add: async_update_unfold raised_def after_def)
qed

theorem async_update_propagates_subscribe_error_witness:
  "\<not> auth_failed tv \<and> \<not> is_stopping (quiet\<lparr>subscribe := Some UpnpCommunicationError\<rparr>)
   \<and> \<not> power_off_in_progress 1000000 tv
   \<and> is_UpnpError UpnpCommunicationError \<and> \<not> is_UpnpResponseError UpnpCommunicationError
   \<and> raised (async_update (quiet\<lparr>subscribe := Some UpnpCommunicationError\<rparr>) tv)
       = Some UpnpCommunicationError
   \<and> dmr_device (after (async_update (quiet\<lparr>subscribe := Some UpnpCommunicationError\<rparr>) tv))
       = None
   \<and> upnp_server (after (async_update (quiet\<lparr>subscribe := Some UpnpCommunicationError\<rparr>) tv))
       = None
   \<and> attr_state (after (async_update (quiet\<lparr>subscribe := Some UpnpCommunicationError\<rparr>) tv))
       = Some STATE_ON"
  using async_update_propagates_subscribe_error
    [of tv "quiet\<lparr>subscribe := Some UpnpCommunicationError\<rparr>"
        "''http://192.168.1.2:9197/dmr''" UpnpCommunicationError]
  by (simp add: tv_def SamsungTVDevice_def quiet_def power_off_in_progress_def)

subsection \<open>The application-list gate\<close>

text \<open>
  C4: once the application-list event is set, by the callback or by the timeout, every
  later tick, whatever calls and callbacks came in between, performs no application-list
  request and no wait, and leaves the event set.
\<close>

theorem async_update_resolved_gate:
  assumes "app_list_event s"
  shows "filter is_app_list_effect (effects (async_update e (run valid cs s))) = []
       \<and> app_list_event (after (async_update e (run valid cs s)))"
  using run_app_list_event [OF assms, of valid cs]
  by (simp add: async_update_no_app_list_effect async_update_app_list_event)

theorem async_update_resolved_gate_witness:
  "app_list_event (after (async_update quiet tv))
   \<and> effects (async_update quiet tv) =
       [BridgeIsOn, BridgeRequestAppList,
        UpnpCreateDevice ''http://192.168.1.2:9197/dmr'', WaitForAppListEvent 3,
        GetLocalIp ''http://192.168.1.2:9197/dmr'', ServerStart, DmrSetOnEvent True,
        DmrSubscribe, Log DEBUG ''Failed to load app list from %s: %s'']
   \<and> filter is_app_list_effect
        (effects (async_update quiet
           (run (\<lambda>x. True) [VolumeUp 2000000] (after (async_update quiet tv))))) = []
   \<and> effects (async_update quiet
        (run (\<lambda>x. True) [VolumeUp 2000000] (after (async_update quiet tv)))) = [BridgeIsOn]"
proof -
  have st: "startup quiet tv =
      (None,
       tv\<lparr>attr_state := Some STATE_ON, app_list_event := True,
          upnp_server := Some (''192.168.1.10'', 0),
          dmr_device := Some (DmrDevice\<lparr>on_event := True\<rparr>)\<rparr>,
       snd (snd (startup quiet tv)))"
    by (simp add: startup_def gather_def startup_app_list_task_def startup_dmr_task_def
        app_list_request_def app_list_requested_def app_list_waited_def dmr_start_def
        dmr_device_created_def dmr_local_ip_found_def dmr_server_started_def
        dmr_subscribed_def quiet_def tv_def SamsungTVDevice_def DmrDevice_def Let_def)
  have ef: "map fst (snd (snd (startup quiet tv))) =
       [BridgeRequestAppList,
        UpnpCreateDevice ''http://192.168.1.2:9197/dmr'', WaitForAppListEvent 3,
        GetLocalIp ''http://192.168.1.2:9197/dmr'', ServerStart, DmrSetOnEvent True,
        DmrSubscribe, Log DEBUG ''Failed to load app list from %s: %s'']"
    by (simp add: startup_def gather_def startup_app_list_task_def startup_dmr_task_def
        app_list_request_def app_list_requested_def app_list_waited_def dmr_start_def
        dmr_device_created_def dmr_local_ip_found_def dmr_server_started_def
        dmr_subscribed_def quiet_def tv_def SamsungTVDevice_def DmrDevice_def
        APP_LIST_DELAY_def Let_def)
  have g0: "\<not> auth_failed tv" "\<not> is_stopping quiet" "is_on quiet"
    "\<not> power_off_in_progress (utcnow quiet) tv"
    by (simp_all add: tv_def SamsungTVDevice_def quiet_def power_off_in_progress_def)
  have s0: "fst (startup quiet tv) = None"
    "fst (snd (startup quiet tv)) =
       tv\<lparr>attr_state := Some STATE_ON, app_list_event := True,
          upnp_server := Some (''192.168.1.10'', 0),
          dmr_device := Some (DmrDevice\<lparr>on_event := True\<rparr>)\<rparr>"
    by (subst st, simp)+
  have a: "after (async_update quiet tv) =
       tv\<lparr>attr_state := Some STATE_ON, app_list_event := True,
          upnp_server := Some (''192.168.1.10'', 0),
          dmr_device := Some (DmrDevice\<lparr>on_event := True\<rparr>)\<rparr>"
    using g0 s0
    by (simp add: async_update_unfold after_def update_from_upnp_def DmrDevice_def)
  have f: "effects (async_update quiet tv) =
       [BridgeIsOn, BridgeRequestAppList,
        UpnpCreateDevice ''http://192.168.1.2:9197/dmr'', WaitForAppListEvent 3,
        GetLocalIp ''http://192.168.1.2:9197/dmr'', ServerStart, DmrSetOnEvent True,
        DmrSubscribe, Log DEBUG ''Failed to load app list from %s: %s'']"
    using g0 s0(1) ef by (simp add: async_update_unfold effects_def)
  have h: "app_list_event (after (async_update quiet tv))"
    by (simp add: a)
  have g: "effects (async_update quiet
        (run (\<lambda>x. True) [VolumeUp 2000000] (after (async_update quiet tv)))) = [BridgeIsOn]"
    unfolding a
    by (simp add: async_update_unfold startup_resolved async_volume_up_def after_def
        update_from_upnp_def power_off_in_progress_def quiet_def tv_def
        SamsungTVDevice_def DmrDevice_def effects_def)
  show ?thesis
    using h f g
      async_update_resolved_gate [OF h, of quiet "\<lambda>x. True" "[VolumeUp 2000000]"]
    by simp
qed

subsection \<open>Commands during the debounce window\<close>

text \<open>
  C5: while the debounce deadline is in the future, a key-sending command whose first key
  is not \<^verbatim>\<open>KEY_POWEROFF\<close>, and an application launch, forward nothing to the bridge: the
  only effect is the log line, and the entity is unchanged.
\<close>

theorem debounce_suppresses_commands:
  assumes "power_off_in_progress now s"
  shows "(k \<noteq> ''KEY_POWEROFF'' \<longrightarrow>
            async_send_keys now (k # ks) s =
              (None, s, [(Log INFO ''TV is powering off, not sending keys: %s'', s)]))
       \<and> async_launch_app now app_id s =
           (None, s, [(Log INFO ''TV is powering off, not sending launch_app command'', s)])"
  using assms by (simp add: async_send_keys_def async_launch_app_def)

theorem debounce_suppresses_commands_witness:
  "power_off_in_progress 1000000 (tv\<lparr>end_of_power_off := Some 16000000\<rparr>)
   \<and> ''KEY_VOLUP'' \<noteq> ''KEY_POWEROFF''
   \<and> effects (async_send_keys 1000000 [''KEY_VOLUP''] (tv\<lparr>end_of_power_off := Some 16000000\<rparr>))
       = [Log INFO ''TV is powering off, not sending keys: %s'']
   \<and> effects (async_launch_app 1000000 ''Netflix'' (tv\<lparr>end_of_power_off := Some 16000000\<rparr>))
       = [Log INFO ''TV is powering off, not sending launch_app command'']"
proof -
  have h: "power_off_in_progress 1000000 (tv\<lparr>end_of_power_off := Some 16000000\<rparr>)"
    by (simp add: power_off_in_progress_def)
  show ?thesis
    using h debounce_suppresses_commands [OF h, of "''KEY_VOLUP''" "[]" "''Netflix''"]
    by (simp add: effects_def)
qed

subsection \<open>Turning off\<close>

text \<open>
  C6: \<^verbatim>\<open>async_turn_off\<close> writes the debounce deadline, the current time plus the poll
  interval plus five seconds, and then issues the power-off command of the bridge: the
  entity observed when the command is dispatched already holds the deadline.
\<close>

theorem async_turn_off_deadline_before_dispatch:
  "async_turn_off interval now s =
     (None, s\<lparr>end_of_power_off := Some (now + (interval + timedelta_seconds 5))\<rparr>,
      [(BridgePowerOff, s\<lparr>end_of_power_off := Some (now + (interval + timedelta_seconds 5))\<rparr>)])"
  by (simp add: async_turn_off_def SCAN_INTERVAL_PLUS_OFF_TIME_def Let_def)

theorem async_turn_off_deadline_before_dispatch_witness:
  "async_turn_off (timedelta_seconds 10) 1000000 tv =
     (None, tv\<lparr>end_of_power_off := Some 16000000\<rparr>,
      [(BridgePowerOff, tv\<lparr>end_of_power_off := Some 16000000\<rparr>)])"
  using async_turn_off_deadline_before_dispatch [of "timedelta_seconds 10" 1000000 tv]
  by (simp add: timedelta_seconds_def)

subsection \<open>An expired deadline\<close>

text \<open>
  C7, as stated: a tick that queries the bridge with a deadline that is set but expired
  clears the stored deadline. It fails: no statement of \<^verbatim>\<open>async_update\<close> or
  \<^verbatim>\<open>_power_off_in_progress\<close> writes \<^verbatim>\<open>_end_of_power_off\<close>, and the expired deadline
  is still stored after the tick.
\<close>

theorem async_update_expired_deadline_counterexample:
  "\<not> auth_failed (tv\<lparr>end_of_power_off := Some 500000\<rparr>) \<and> \<not> is_stopping quiet
   \<and> \<not> power_off_in_progress (utcnow quiet) (tv\<lparr>end_of_power_off := Some 500000\<rparr>)
   \<and> hd (effects (async_update quiet (tv\<lparr>end_of_power_off := Some 500000\<rparr>))) = BridgeIsOn
   \<and> end_of_power_off (after (async_update quiet (tv\<lparr>end_of_power_off := Some 500000\<rparr>)))
       = Some 500000
   \<and> end_of_power_off (after (async_update quiet (tv\<lparr>end_of_power_off := Some 500000\<rparr>)))
       \<noteq> None"
  by (simp add: async_update_unfold startup_end_of_power_off power_off_in_progress_def
      quiet_def tv_def SamsungTVDevice_def after_def effects_def split: option.splits)

text \<open>
  C7, amended: every tick leaves the stored deadline as it was; a deadline that is set but
  expired stays stored, and is told from a running one by the comparison with the clock
  each time \<^verbatim>\<open>_power_off_in_progress\<close> is called.
\<close>

theorem async_update_keeps_deadline:
  "end_of_power_off (after (async_update e s)) = end_of_power_off s"
  by (simp add: async_update_unfold startup_end_of_power_off after_def split: option.splits)

theorem async_update_keeps_deadline_witness:
  "end_of_power_off (after (async_update quiet (tv\<lparr>end_of_power_off := Some 500000\<rparr>)))
     = Some 500000"
  using async_update_keeps_deadline [of quiet "tv\<lparr>end_of_power_off := Some 500000\<rparr>"]
  by simp

subsection \<open>A late application list\<close>

text \<open>
  C8: when the application-list event is already set, as it is after the timeout, a call
  of the callback still replaces the stored application map with the delivered one and
  the event stays set; and whatever calls and callbacks follow, the event is never
  cleared.
\<close>

theorem app_list_callback_after_resolution:
  assumes "app_list_event s"
  shows "app_list (after (perform valid (AppListCallback al) s)) = Some al
       \<and> app_list_event (after (perform valid (AppListCallback al) s))
       \<and> app_list_event (run valid cs s)"
  using run_app_list_event [OF assms, of valid cs] by (simp add: after_def)

theorem app_list_callback_after_resolution_witness:
  "app_list_event (after (async_startup_app_list quiet tv))
   \<and> app_list (after (async_startup_app_list quiet tv)) = None
   \<and> app_list (after (perform (\<lambda>x. True) (AppListCallback [(''Netflix'', ''11101200001'')])
                 (after (async_startup_app_list quiet tv))))
       = Some [(''Netflix'', ''11101200001'')]
   \<and> app_list_event (after (perform (\<lambda>x. True) (AppListCallback [(''Netflix'', ''11101200001'')])
                 (after (async_startup_app_list quiet tv))))
   \<and> app_list_event (run (\<lambda>x. True) [AccessDenied, WillRemoveFromHass]
        (after (async_startup_app_list quiet tv)))"
proof -
  have h: "app_list_event (after (async_startup_app_list quiet tv))"
    by (simp add: after_def)
  have n: "app_list (after (async_startup_app_list quiet tv)) = None"
    by (simp add: async_startup_app_list_def after_def quiet_def tv_def SamsungTVDevice_def
        Let_def)
  show ?thesis
    using h n
      app_list_callback_after_resolution
        [OF h, of "\<lambda>x. True" "[(''Netflix'', ''11101200001'')]"
           "[AccessDenied, WillRemoveFromHass]"]
    by simp
qed

subsection \<open>Availability\<close>

text \<open>
  C9: the entity is unavailable whenever the auth-failure flag is set; otherwise it is
  available exactly when the state is ON, or a turn-on script is configured, or a hardware
  address is configured, or the debounce deadline is set and in the future.
\<close>

theorem available_iff:
  "available now s \<longleftrightarrow>
     \<not> auth_failed s
     \<and> (attr_state s = Some STATE_ON \<or> on_script s \<noteq> None \<or> mac s \<noteq> None
        \<or> (\<exists>t. end_of_power_off s = Some t \<and> now < t))"
  by (simp add: available_def power_off_in_progress_def split: option.splits)

theorem available_iff_witness:
  "available 1000000 ((SamsungTVDevice True ''192.168.1.2'' None None None)
      \<lparr>end_of_power_off := Some 16000000\<rparr>)
   \<and> \<not> available 17000000 ((SamsungTVDevice True ''192.168.1.2'' None None None)
      \<lparr>end_of_power_off := Some 16000000\<rparr>)
   \<and> \<not> available 1000000 (tv\<lparr>auth_failed := True\<rparr>)"
  using available_iff [of 1000000 "(SamsungTVDevice True ''192.168.1.2'' None None None)
      \<lparr>end_of_power_off := Some 16000000\<rparr>"]
    available_iff [of 17000000 "(SamsungTVDevice True ''192.168.1.2'' None None None)
      \<lparr>end_of_power_off := Some 16000000\<rparr>"]
    available_iff [of 1000000 "tv\<lparr>auth_failed := True\<rparr>"]
  by (simp add: SamsungTVDevice_def)

subsection \<open>Muting\<close>

text \<open>
  C10: \<^verbatim>\<open>async_mute_volume\<close> does not look at its argument: called with true or with
  false on the same entity at the same time, it returns the same outcome, which is the
  single key \<^verbatim>\<open>KEY_MUTE\<close> sent to the bridge, or, during the debounce window, the log
  line and nothing sent.
\<close>

theorem async_mute_volume_ignores_argument:
  "async_mute_volume True now s = async_mute_volume False now s
   \<and> async_mute_volume mute now s =
       (None, s,
        [(if power_off_in_progress now s
          then Log INFO ''TV is powering off, not sending keys: %s''
          else BridgeSendKeys [''KEY_MUTE''], s)])"
  by (simp add: async_mute_volume_def async_send_keys_def)

theorem async_mute_volume_ignores_argument_witness:
  "async_mute_volume True 1000000 tv = async_mute_volume False 1000000 tv
   \<and> async_mute_volume False 1000000 tv = (None, tv, [(BridgeSendKeys [''KEY_MUTE''], tv)])"
  using async_mute_volume_ignores_argument [of 1000000 tv False]
  by (simp add: power_off_in_progress_def tv_def SamsungTVDevice_def)

end
